theory Spec2Isabelle
  imports Main
begin

section \<open>Lifecycle state machine (core/startable.py)\<close>

text \<open>
  A shallow embedding of \<^verbatim>\<open>StartableListener\<close>, \<^verbatim>\<open>Startable\<close> and
  \<^verbatim>\<open>StartableManager\<close>. Methods that mutate \<^verbatim>\<open>self\<close> take the object and
  return the updated object. A method that may raise returns a pair: \<open>None\<close> for a
  normal return or \<open>Some exc\<close> for the exception that leaves the method, together
  with the object as the method left it. The type \<open>exn\<close> stands for instances of
  Python's \<^verbatim>\<open>Exception\<close>, which is what \<^verbatim>\<open>except Exception\<close> catches.
  The reentrant lock is acquired and released around every operation and has no
  effect on a single thread of calls, which is what is modelled here.
\<close>

datatype exn = Exception string

text \<open>The class constants \<^verbatim>\<open>FAILED, STOPPED, ... = -1, 0, ..., 6\<close>.\<close>

datatype lstate =
  FAILED | STOPPED | STARTING | STARTED | STOPPING | CONFIGURING | CONFIGURED | UNCONFIGURED

fun state_code :: "lstate \<Rightarrow> int" where
  "state_code FAILED = -1"
| "state_code STOPPED = 0"
| "state_code STARTING = 1"
| "state_code STARTED = 2"
| "state_code STOPPING = 3"
| "state_code CONFIGURING = 4"
| "state_code CONFIGURED = 5"
| "state_code UNCONFIGURED = 6"

text \<open>The configuration object is opaque to this module; \<open>None\<close> is Python's \<^verbatim>\<open>None\<close>.\<close>

type_synonym config = "(string \<times> string) list option"

subsection \<open>StartableListener\<close>

text \<open>
  A callback slot holds \<^verbatim>\<open>None\<close> or a callable supplied by the user. What a callable
  does to the observed object is outside this module; what matters to
  \<^verbatim>\<open>Startable\<close> is whether the call returns or raises. \<open>lid\<close> is the identity of the
  listener object: Python compares listeners by identity, and two listener objects are
  given different \<open>lid\<close>s.
\<close>

datatype callback = Returns | Raises exn

record listener =
  lid :: nat
  starting_func :: "callback option"
  started_func :: "callback option"
  failure_func :: "callback option"
  stopping_func :: "callback option"
  stopped_func :: "callback option"
  configuring_func :: "callback option"
  configured_func :: "callback option"

text \<open>The seven methods of a listener, with the arguments they are called with
  (the observed object itself is left out).\<close>

datatype event =
  on_starting | on_started | on_failure exn | on_stopping | on_stopped
  | on_configuring config | on_configured config

fun slot :: "listener \<Rightarrow> event \<Rightarrow> callback option" where
  "slot l on_starting = starting_func l"
| "slot l on_started = started_func l"
| "slot l (on_failure exc) = failure_func l"
| "slot l on_stopping = stopping_func l"
| "slot l on_stopped = stopped_func l"
| "slot l (on_configuring c) = configuring_func l"
| "slot l (on_configured c) = configured_func l"

text \<open>\<^verbatim>\<open>self._f(obj) if self._f else None\<close>: an empty slot is a no-op; a callable is
  called, and its exception (if any) leaves the method.\<close>

definition deliver :: "listener \<Rightarrow> event \<Rightarrow> exn option" where
  "deliver l ev =
     (case slot l ev of
        None \<Rightarrow> None
      | Some Returns \<Rightarrow> None
      | Some (Raises exc) \<Rightarrow> Some exc)"

text \<open>\<^verbatim>\<open>StartableListener.__init__\<close>; every slot defaults to \<^verbatim>\<open>None\<close>. \<open>i\<close> is the
  identity of the new object.\<close>

definition listener_init ::
  "nat \<Rightarrow> callback option \<Rightarrow> callback option \<Rightarrow> callback option \<Rightarrow> callback option \<Rightarrow>
   callback option \<Rightarrow> callback option \<Rightarrow> callback option \<Rightarrow> listener" where
  "listener_init i starting started failure stopping stopped configuring configured =
     \<lparr> lid = i, starting_func = starting, started_func = started, failure_func = failure,
       stopping_func = stopping, stopped_func = stopped, configuring_func = configuring,
       configured_func = configured \<rparr>"

definition plain_listener :: "nat \<Rightarrow> listener" where
  "plain_listener i = listener_init i None None None None None None None"

subsection \<open>Startable\<close>

text \<open>
  What an observer of the object can see, in the order it happens: an assignment to
  \<^verbatim>\<open>_state\<close>, a call of a listener's method, and a call of one of the three hooks
  with its outcome. \<open>Disturbed\<close> marks that the code just called (a callback or a hook)
  did more than it is expected to: a callback raised or changed the object, or a hook
  changed something other than the fields of the subclass. The field \<open>history\<close> of the
  object records these; it is not a field of the Python class, and no operation reads
  it.
\<close>

datatype hook_kind = DoConfigure | DoStart | DoStop

datatype obs =
  SetState lstate | Notified listener event | HookRun hook_kind "exn option" | Disturbed

record 'o startable =
  state :: lstate
  configured :: lstate
  enabled :: bool
  listeners :: "listener list"
  configuration :: config
  history :: "obs list"
  ext :: 'o

text \<open>\<^verbatim>\<open>Startable.__init__\<close>; \<open>x\<close> holds the fields a subclass adds.\<close>

definition init :: "config \<Rightarrow> 'o \<Rightarrow> 'o startable" where
  "init config x =
     \<lparr> state = STOPPED, configured = UNCONFIGURED, enabled = True, listeners = [],
       configuration = config, history = [], ext = x \<rparr>"

text \<open>
  The hooks \<^verbatim>\<open>do_configure\<close>, \<^verbatim>\<open>do_start\<close>, \<^verbatim>\<open>do_stop\<close> are supplied by the
  subclass. A hook reads the object, may change the subclass's own fields, and returns
  or raises. Hooks that assign the base class's fields or call back into
  \<^verbatim>\<open>configure\<close>/\<^verbatim>\<open>start\<close>/\<^verbatim>\<open>stop\<close> of the same object are not modelled.
\<close>

type_synonym 'o hook = "'o startable \<Rightarrow> exn option \<times> 'o"

record 'o hooks =
  do_configure :: "'o hook"
  do_start :: "'o hook"
  do_stop :: "'o hook"

text \<open>The hooks of \<^verbatim>\<open>Startable\<close> itself: \<^verbatim>\<open>pass\<close>.\<close>

definition base_hooks :: "'o hooks" where
  "base_hooks =
     \<lparr> do_configure = (\<lambda>s. (None, ext s)),
       do_start = (\<lambda>s. (None, ext s)),
       do_stop = (\<lambda>s. (None, ext s)) \<rparr>"

text \<open>A hook whose body is \<^verbatim>\<open>raise exc\<close>.\<close>

definition raising :: "exn \<Rightarrow> 'o hook" where
  "raising exc s = (Some exc, ext s)"


type_synonym 'o res = "exn option \<times> 'o startable"

definition is_started :: "'o startable \<Rightarrow> bool" where
  "is_started s = (state s = STARTED)"

definition is_starting :: "'o startable \<Rightarrow> bool" where
  "is_starting s = (state s = STARTING)"

definition is_running :: "'o startable \<Rightarrow> bool" where
  "is_running s = (is_started s \<or> is_starting s)"

definition set_configuration :: "config \<Rightarrow> 'o startable \<Rightarrow> 'o startable" where
  "set_configuration config s = s\<lparr>configuration := config\<rparr>"

text \<open>The argument of \<^verbatim>\<open>add_listener\<close>/\<^verbatim>\<open>remove_listener\<close> is any Python value;
  \<^verbatim>\<open>isinstance(listener, StartableListener)\<close> holds for the first constructor only.\<close>

datatype 'a pyvalue = ListenerObject listener | OtherValue 'a

definition add_listener :: "'a pyvalue \<Rightarrow> 'o startable \<Rightarrow> 'o startable" where
  "add_listener v s =
     (case v of
        ListenerObject l \<Rightarrow> s\<lparr>listeners := listeners s @ [l]\<rparr>
      | OtherValue x \<Rightarrow> s)"

text \<open>\<^verbatim>\<open>list.index\<close> of an element known to be in the list, and \<^verbatim>\<open>list.pop(i)\<close>.\<close>

fun index_of :: "'a \<Rightarrow> 'a list \<Rightarrow> nat" where
  "index_of x [] = 0"
| "index_of x (y # ys) = (if y = x then 0 else Suc (index_of x ys))"

definition pop_at :: "nat \<Rightarrow> 'a list \<Rightarrow> 'a list" where
  "pop_at i xs = take i xs @ drop (Suc i) xs"

definition remove_listener :: "'a pyvalue \<Rightarrow> 'o startable \<Rightarrow> 'o startable" where
  "remove_listener v s =
     (case v of
        ListenerObject l \<Rightarrow>
          (if l \<in> set (listeners s)
           then s\<lparr>listeners := pop_at (index_of l (listeners s)) (listeners s)\<rparr>
           else s)
      | OtherValue x \<Rightarrow> s)"

definition record_obs :: "obs \<Rightarrow> 'o startable \<Rightarrow> 'o startable" where
  "record_obs x s = s\<lparr>history := history s @ [x]\<rparr>"

text \<open>\<^verbatim>\<open>for listener in self._listeners: listener.on_...(self, ...)\<close>. The loop is
  not guarded: an exception of a callback leaves the loop.\<close>

fun notify_all :: "event \<Rightarrow> listener list \<Rightarrow> 'o startable \<Rightarrow> 'o res" where
  "notify_all ev [] s = (None, s)"
| "notify_all ev (l # ls) s =
     (case deliver l ev of
        Some exc \<Rightarrow> (Some exc, record_obs (Notified l ev) s)
      | None \<Rightarrow> notify_all ev ls (record_obs (Notified l ev) s))"

definition set_configured :: "'o startable \<Rightarrow> 'o res" where
  "set_configured s =
     (let s1 = record_obs (SetState CONFIGURED) (s\<lparr>state := CONFIGURED\<rparr>);
          s2 = s1\<lparr>configured := state s1\<rparr>
      in notify_all (on_configured (configuration s2)) (listeners s2) s2)"

definition set_configuring :: "'o startable \<Rightarrow> 'o res" where
  "set_configuring s =
     (let s1 = record_obs (SetState CONFIGURING) (s\<lparr>state := CONFIGURING\<rparr>);
          s2 = s1\<lparr>configured := state s1\<rparr>
      in notify_all (on_configuring (configuration s2)) (listeners s2) s2)"

definition set_failed :: "exn \<Rightarrow> 'o startable \<Rightarrow> 'o res" where
  "set_failed exc s =
     (let s1 = record_obs (SetState FAILED) (s\<lparr>state := FAILED\<rparr>)
      in notify_all (on_failure exc) (listeners s1) s1)"

definition set_starting :: "'o startable \<Rightarrow> 'o res" where
  "set_starting s =
     (let s1 = record_obs (SetState STARTING) (s\<lparr>state := STARTING\<rparr>)
      in notify_all on_starting (listeners s1) s1)"

definition set_started :: "'o startable \<Rightarrow> 'o res" where
  "set_started s =
     (let s1 = record_obs (SetState STARTED) (s\<lparr>state := STARTED\<rparr>)
      in notify_all on_started (listeners s1) s1)"

definition set_stopping :: "'o startable \<Rightarrow> 'o res" where
  "set_stopping s =
     (let s1 = record_obs (SetState STOPPING) (s\<lparr>state := STOPPING\<rparr>)
      in notify_all on_stopping (listeners s1) s1)"

definition set_stopped :: "'o startable \<Rightarrow> 'o res" where
  "set_stopped s =
     (let s1 = record_obs (SetState STOPPED) (s\<lparr>state := STOPPED\<rparr>)
      in notify_all on_stopped (listeners s1) s1)"

text \<open>Calling a hook: the subclass's fields are as the hook left them, whether it
  returned or raised.\<close>

definition run_hook :: "hook_kind \<Rightarrow> 'o hook \<Rightarrow> 'o startable \<Rightarrow> 'o res" where
  "run_hook k f s =
     (case f s of (r, x) \<Rightarrow> (r, record_obs (HookRun k r) (s\<lparr>ext := x\<rparr>)))"

text \<open>Two statements in sequence: the second runs only if the first returned.\<close>

definition seq :: "('o startable \<Rightarrow> 'o res) \<Rightarrow> ('o startable \<Rightarrow> 'o res) \<Rightarrow> 'o startable \<Rightarrow> 'o res" where
  "seq f g s = (case f s of (None, s1) \<Rightarrow> g s1 | (Some exc, s1) \<Rightarrow> (Some exc, s1))"

text \<open>\<^verbatim>\<open>except Exception as exc: self._set_failed(exc); raise exc\<close>. An exception of
  \<^verbatim>\<open>_set_failed\<close> (a failure callback that raises) replaces \<open>exc\<close>.\<close>

definition on_exception :: "exn \<Rightarrow> 'o startable \<Rightarrow> 'o res" where
  "on_exception exc s =
     (case set_failed exc s of
        (None, s1) \<Rightarrow> (Some exc, s1)
      | (Some exc', s1) \<Rightarrow> (Some exc', s1))"

definition try_except :: "('o startable \<Rightarrow> 'o res) \<Rightarrow> 'o startable \<Rightarrow> 'o res" where
  "try_except body s =
     (case body s of
        (None, s1) \<Rightarrow> (None, s1)
      | (Some exc, s1) \<Rightarrow> on_exception exc s1)"

definition configure :: "'o hooks \<Rightarrow> 'o startable \<Rightarrow> 'o res" where
  "configure h s =
     (if configured s = CONFIGURED \<or> state s \<in> set [CONFIGURED, CONFIGURING]
      then (None, s)
      else try_except
             (seq set_configuring (seq (run_hook DoConfigure (do_configure h)) set_configured)) s)"

text \<open>\<^verbatim>\<open>start\<close>: the implicit \<^verbatim>\<open>configure()\<close> stands before the \<^verbatim>\<open>try\<close>, so its
  exception leaves \<^verbatim>\<open>start\<close> directly.\<close>

definition start_body :: "'o hooks \<Rightarrow> 'o startable \<Rightarrow> 'o res" where
  "start_body h s =
     (if \<not> enabled s \<or> state s \<in> set [STARTED, STARTING]
      then (None, s)
      else try_except
             (seq set_starting (seq (run_hook DoStart (do_start h)) set_started)) s)"

definition start :: "'o hooks \<Rightarrow> 'o startable \<Rightarrow> 'o res" where
  "start h s =
     seq (\<lambda>s. if configured s = UNCONFIGURED then configure h s else (None, s))
         (start_body h) s"

definition stop :: "'o hooks \<Rightarrow> 'o startable \<Rightarrow> 'o res" where
  "stop h s =
     (if state s \<in> set [STOPPED, STOPPING]
      then (None, s)
      else try_except
             (seq set_stopping (seq (run_hook DoStop (do_stop h)) set_stopped)) s)"

text \<open>A caller that issues a sequence of calls and goes on after an exception.\<close>

datatype call = Configure | Start | Stop

fun perform :: "'o hooks \<Rightarrow> call \<Rightarrow> 'o startable \<Rightarrow> 'o res" where
  "perform h Configure s = configure h s"
| "perform h Start s = start h s"
| "perform h Stop s = stop h s"

fun perform_all :: "'o hooks \<Rightarrow> call list \<Rightarrow> 'o startable \<Rightarrow> 'o startable" where
  "perform_all h [] s = s"
| "perform_all h (c # cs) s = perform_all h cs (snd (perform h c s))"

text \<open>A fresh object on which \<^verbatim>\<open>add_listener\<close> was called with each listener of a
  list, in order.\<close>

definition observed_by :: "listener list \<Rightarrow> unit startable" where
  "observed_by ls = fold (\<lambda>l. add_listener (ListenerObject l :: unit pyvalue)) ls (init None ())"

subsection \<open>Reading the history\<close>

text \<open>What an operation added to the history of the object.\<close>

definition added :: "'o startable \<Rightarrow> 'o startable \<Rightarrow> obs list" where
  "added s s' = drop (length (history s)) (history s')"

text \<open>A state transition with its complete fan-out: the assignment, then the event to
  every listener of the list, in the order of the list.\<close>

definition transition :: "lstate \<Rightarrow> event \<Rightarrow> listener list \<Rightarrow> obs list" where
  "transition X ev ls = SetState X # map (\<lambda>l. Notified l ev) ls"

text \<open>The object after a transition with its complete fan-out.\<close>

definition enter :: "lstate \<Rightarrow> event \<Rightarrow> 'o startable \<Rightarrow> 'o startable" where
  "enter X ev s = s\<lparr>state := X, history := history s @ transition X ev (listeners s)\<rparr>"

text \<open>The object after a hook ran with outcome \<open>r\<close> and left the subclass's fields
  as \<open>x\<close>.\<close>

definition hooked :: "hook_kind \<Rightarrow> exn option \<times> 'o \<Rightarrow> 'o startable \<Rightarrow> 'o startable" where
  "hooked k rx s = record_obs (HookRun k (fst rx)) (s\<lparr>ext := snd rx\<rparr>)"

text \<open>The fan-out in general: the listeners the loop reaches (up to and including the
  first whose callback raises), and the exception that leaves the loop.\<close>

fun reached :: "event \<Rightarrow> listener list \<Rightarrow> listener list" where
  "reached ev [] = []"
| "reached ev (l # ls) = (case deliver l ev of Some exc \<Rightarrow> [l] | None \<Rightarrow> l # reached ev ls)"

fun first_raise :: "event \<Rightarrow> listener list \<Rightarrow> exn option" where
  "first_raise ev [] = None"
| "first_raise ev (l # ls) =
     (case deliver l ev of Some exc \<Rightarrow> Some exc | None \<Rightarrow> first_raise ev ls)"

text \<open>The object after a transition whose fan-out may have been cut short.\<close>

definition entered :: "lstate \<Rightarrow> event \<Rightarrow> 'o startable \<Rightarrow> 'o startable" where
  "entered X ev s =
     s\<lparr>state := X, history := history s @ transition X ev (reached ev (listeners s))\<rparr>"

text \<open>A listener none of whose callbacks raises.\<close>

fun returns :: "callback option \<Rightarrow> bool" where
  "returns (Some (Raises exc)) = False"
| "returns (Some Returns) = True"
| "returns None = True"

definition quiet_listener :: "listener \<Rightarrow> bool" where
  "quiet_listener l =
     (returns (starting_func l) \<and> returns (started_func l) \<and> returns (failure_func l) \<and>
      returns (stopping_func l) \<and> returns (stopped_func l) \<and>
      returns (configuring_func l) \<and> returns (configured_func l))"

definition quiet :: "listener list \<Rightarrow> bool" where
  "quiet ls = list_all quiet_listener ls"



text \<open>The exceptions raised by hooks, in order.\<close>

fun raised_by_hooks :: "obs list \<Rightarrow> exn list" where
  "raised_by_hooks [] = []"
| "raised_by_hooks (HookRun k (Some exc) # tr) = exc # raised_by_hooks tr"
| "raised_by_hooks (x # tr) = raised_by_hooks tr"

text \<open>What the history holds after the first hook that raised.\<close>

fun after_raise :: "obs list \<Rightarrow> obs list" where
  "after_raise [] = []"
| "after_raise (HookRun k (Some exc) # tr) = tr"
| "after_raise (x # tr) = after_raise tr"

text \<open>The policy for a failing hook, on the outcome \<open>r\<close> of an operation, the state \<open>X\<close>
  it leaves and the history \<open>tr\<close> it added: if no hook raised, the operation returns
  and \<open>FAILED\<close> is not assigned; if a hook raised \<open>exc\<close>, no other hook raised, the
  operation raises \<open>exc\<close>, the state is \<open>FAILED\<close>, and what follows the hook is the
  assignment of \<open>FAILED\<close> and \<open>on_failure exc\<close> to every listener of \<open>ls\<close>.\<close>

definition failure_policy :: "listener list \<Rightarrow> exn option \<Rightarrow> lstate \<Rightarrow> obs list \<Rightarrow> bool" where
  "failure_policy ls r X tr =
     (case raised_by_hooks tr of
        [] \<Rightarrow> r = None \<and> SetState FAILED \<notin> set tr
      | exc # others \<Rightarrow>
          others = [] \<and> r = Some exc \<and> X = FAILED \<and>
          after_raise tr = transition FAILED (on_failure exc) ls)"

text \<open>The values taken by the state field, from the value \<open>X\<close> it starts with.\<close>

fun assigned :: "obs list \<Rightarrow> lstate list" where
  "assigned [] = []"
| "assigned (SetState X # tr) = X # assigned tr"
| "assigned (x # tr) = assigned tr"

definition state_sequence :: "lstate \<Rightarrow> obs list \<Rightarrow> lstate list" where
  "state_sequence X tr = X # assigned tr"

text \<open>The state a hook runs in.\<close>

fun phase :: "hook_kind \<Rightarrow> lstate" where
  "phase DoConfigure = CONFIGURING"
| "phase DoStart = STARTING"
| "phase DoStop = STOPPING"

text \<open>The steps of the state field that the three operations take when no exception
  is raised: an operation is entered from a state its guard lets through, and completes
  into its final state.\<close>

definition lifecycle_step :: "lstate \<Rightarrow> lstate \<Rightarrow> bool" where
  "lifecycle_step X Y =
     ((Y = CONFIGURING \<and> X \<in> set [STOPPED, STARTED, FAILED]) \<or>
      (Y = STARTING \<and> X \<in> set [STOPPED, CONFIGURED, FAILED]) \<or>
      (Y = STOPPING \<and> X \<in> set [CONFIGURED, STARTED, FAILED]) \<or>
      (X = CONFIGURING \<and> Y = CONFIGURED) \<or>
      (X = STARTING \<and> Y = STARTED) \<or>
      (X = STOPPING \<and> Y = STOPPED))"

text \<open>A history checked from left to right. \<open>X\<close> is the current state and \<open>r\<close> tells
  whether the hook of the current state has just raised. A hook runs only in its own
  phase; \<open>FAILED\<close> is assigned only right after the hook of the current phase raised;
  every other assignment is a lifecycle step.\<close>

fun lifecycle_ok :: "lstate \<Rightarrow> bool \<Rightarrow> obs list \<Rightarrow> bool" where
  "lifecycle_ok X r [] = True"
| "lifecycle_ok X r (HookRun k res # tr) =
     (X = phase k \<and> \<not> r \<and> lifecycle_ok X (res \<noteq> None) tr)"
| "lifecycle_ok X r (SetState Y # tr) =
     ((if Y = FAILED then r else \<not> r \<and> lifecycle_step X Y) \<and> lifecycle_ok Y False tr)"
| "lifecycle_ok X r (Notified l ev # tr) = lifecycle_ok X r tr"
| "lifecycle_ok X r (Disturbed # tr) = False"

text \<open>Where the check of a history ends: the state assigned last and whether a hook
  has raised since.\<close>

fun lifecycle_end :: "lstate \<Rightarrow> bool \<Rightarrow> obs list \<Rightarrow> lstate \<times> bool" where
  "lifecycle_end X r [] = (X, r)"
| "lifecycle_end X r (HookRun k res # tr) = lifecycle_end X (res \<noteq> None) tr"
| "lifecycle_end X r (SetState Y # tr) = lifecycle_end Y False tr"
| "lifecycle_end X r (Notified l ev # tr) = lifecycle_end X r tr"
| "lifecycle_end X r (Disturbed # tr) = lifecycle_end X r tr"




text \<open>An object whose marker is \<open>UNCONFIGURED\<close> only while its state is \<open>STOPPED\<close>: so
  \<^verbatim>\<open>__init__\<close> leaves it, and so every operation keeps it.\<close>

definition consistent :: "'o startable \<Rightarrow> bool" where
  "consistent s = (configured s = UNCONFIGURED \<longrightarrow> state s = STOPPED)"

text \<open>The \<open>starting\<close> and \<open>started\<close> notifications of a history.\<close>

fun is_start_notification :: "obs \<Rightarrow> bool" where
  "is_start_notification (Notified l on_starting) = True"
| "is_start_notification (Notified l on_started) = True"
| "is_start_notification x = False"



subsection \<open>StartableManager\<close>

text \<open>The fields the manager adds: the children, and what \<^verbatim>\<open>logging.error\<close> was
  called with. The children are \<^verbatim>\<open>Startable\<close>s with hooks of their own.\<close>

record 'c manager =
  startable_objects :: "'c startable list"
  logged_errors :: "exn list"

definition manager_init :: "config \<Rightarrow> 'c manager startable" where
  "manager_init config = init config \<lparr> startable_objects = [], logged_errors = [] \<rparr>"

text \<open>\<^verbatim>\<open>for item in self._startable_objects: try: ... except Exception as exc:
  logging.error(exc)\<close>, with the body of the \<^verbatim>\<open>try\<close> as \<open>f\<close>. The result is the
  children as the loop left them and the exceptions logged.\<close>

fun cascade :: "('c startable \<Rightarrow> 'c res) \<Rightarrow> 'c startable list \<Rightarrow> 'c startable list \<times> exn list" where
  "cascade f [] = ([], [])"
| "cascade f (item # items) =
     (case f item of
        (None, item') \<Rightarrow>
          (case cascade f items of (items', errs) \<Rightarrow> (item' # items', errs))
      | (Some exc, item') \<Rightarrow>
          (case cascade f items of (items', errs) \<Rightarrow> (item' # items', exc # errs)))"

definition manager_cascade :: "('c startable \<Rightarrow> 'c res) \<Rightarrow> 'c manager hook" where
  "manager_cascade f m =
     (case cascade f (startable_objects (ext m)) of
        (items', errs) \<Rightarrow>
          (None, (ext m)\<lparr>startable_objects := items',
                         logged_errors := logged_errors (ext m) @ errs\<rparr>))"

definition manager_do_configure :: "'c hooks \<Rightarrow> 'c manager hook" where
  "manager_do_configure ch m =
     manager_cascade (\<lambda>item. configure ch (set_configuration (configuration m) item)) m"

definition manager_do_start :: "'c hooks \<Rightarrow> 'c manager hook" where
  "manager_do_start ch m = manager_cascade (start ch) m"

definition manager_do_stop :: "'c hooks \<Rightarrow> 'c manager hook" where
  "manager_do_stop ch m = manager_cascade (stop ch) m"

definition manager_hooks :: "'c hooks \<Rightarrow> 'c manager hooks" where
  "manager_hooks ch =
     \<lparr> do_configure = manager_do_configure ch,
       do_start = manager_do_start ch,
       do_stop = manager_do_stop ch \<rparr>"


section \<open>Worker-process dispatch loop (core/msgpexec.py)\<close>

text \<open>
  What the queue can hand to the worker: \<^verbatim>\<open>submit_task\<close> puts whatever it is given.
  \<^verbatim>\<open>ShutdownMessage\<close> is a subclass of \<^verbatim>\<open>AbstractMessage\<close>; \<open>AbstractMessage m\<close>
  is any other instance of it, with content \<open>m\<close>. \<open>OtherObject b\<close> is a value that is
  not a message, with its truth value.
\<close>

datatype 'm item = ShutdownMessage | AbstractMessage 'm | OtherObject bool

text \<open>Modelled from the spec: the class \<^verbatim>\<open>AbstractMessage\<close> (imported from
  \<^verbatim>\<open>common.msgobject\<close>) is not among the sources. The specification describes a
  message as a unit of work with a discriminator, an id, a target and parameters, and the
  sentinel as such a message; nothing makes an instance falsy, so \<^verbatim>\<open>if message_obj:\<close>
  lets every message through, as it does for an instance of any Python class that defines
  neither \<^verbatim>\<open>__bool__\<close> nor \<^verbatim>\<open>__len__\<close>.\<close>

fun truthy :: "'m item \<Rightarrow> bool" where
  "truthy ShutdownMessage = True"
| "truthy (AbstractMessage m) = True"
| "truthy (OtherObject b) = b"

fun isinstance_ShutdownMessage :: "'m item \<Rightarrow> bool" where
  "isinstance_ShutdownMessage ShutdownMessage = True"
| "isinstance_ShutdownMessage x = False"

fun isinstance_AbstractMessage :: "'m item \<Rightarrow> bool" where
  "isinstance_AbstractMessage ShutdownMessage = True"
| "isinstance_AbstractMessage (AbstractMessage m) = True"
| "isinstance_AbstractMessage (OtherObject b) = False"

text \<open>One \<^verbatim>\<open>self._queue.get(True, 0.1)\<close>: the timeout (\<^verbatim>\<open>Empty\<close>), an item, or
  another exception of the queue.\<close>

datatype 'm poll = Empty | Got "'m item" | GetError exn

text \<open>The engine \<^verbatim>\<open>_handler\<close> is an external collaborator: \<open>execute_module\<close> takes
  the engine's state and the message and returns or raises.\<close>

type_synonym ('e, 'm) execute_module = "'e \<Rightarrow> 'm item \<Rightarrow> exn option \<times> 'e"

record ('e, 'm) worker =
  engine :: 'e
  dequeued :: "'m item list"
  executed :: "'m item list"
  logged_exceptions :: "exn list"

definition worker_init :: "'e \<Rightarrow> ('e, 'm) worker" where
  "worker_init e = \<lparr> engine = e, dequeued = [], executed = [], logged_exceptions = [] \<rparr>"

text \<open>How the \<^verbatim>\<open>while True\<close> loop stands after the polls given: left by
  \<^verbatim>\<open>break\<close>, left by an exception, or still polling.\<close>

datatype loop_exit = Break | Propagated exn | StillPolling

text \<open>The body of the inner \<^verbatim>\<open>try\<close> for a truthy item: \<open>True\<close> means \<^verbatim>\<open>break\<close>.\<close>

definition handle_item :: "('e, 'm) execute_module \<Rightarrow> 'm item \<Rightarrow> ('e, 'm) worker \<Rightarrow> bool \<times> ('e, 'm) worker" where
  "handle_item exec message_obj w =
     (if isinstance_ShutdownMessage message_obj then (True, w)
      else if isinstance_AbstractMessage message_obj then
        (case exec (engine w) message_obj of
           (None, e') \<Rightarrow> (False, w\<lparr>engine := e', executed := executed w @ [message_obj]\<rparr>)
         | (Some ex, e') \<Rightarrow>
             (False, w\<lparr>engine := e', executed := executed w @ [message_obj],
                        logged_exceptions := logged_exceptions w @ [ex]\<rparr>))
      else (False, w))"

fun dispatch_loop :: "('e, 'm) execute_module \<Rightarrow> 'm poll list \<Rightarrow> ('e, 'm) worker \<Rightarrow> loop_exit \<times> ('e, 'm) worker" where
  "dispatch_loop exec [] w = (StillPolling, w)"
| "dispatch_loop exec (Empty # polls) w = dispatch_loop exec polls w"
| "dispatch_loop exec (GetError ex # polls) w = (Propagated ex, w)"
| "dispatch_loop exec (Got message_obj # polls) w =
     (let w1 = w\<lparr>dequeued := dequeued w @ [message_obj]\<rparr> in
      if truthy message_obj then
        (case handle_item exec message_obj w1 of
           (True, w2) \<Rightarrow> (Break, w2)
         | (False, w2) \<Rightarrow> dispatch_loop exec polls w2)
      else dispatch_loop exec polls w1)"

text \<open>
  \<^verbatim>\<open>subprocess_entry\<close> as a whole. The engine is created, configured and started before
  the loop; an exception there leaves the method before the loop is entered. When the loop
  is left, by \<^verbatim>\<open>break\<close> or by an exception, the \<^verbatim>\<open>finally\<close> block stops the engine;
  an exception of \<^verbatim>\<open>stop\<close> replaces the one in flight.
\<close>

record ('e, 'm) handler =
  handler_setup :: "'e \<Rightarrow> exn option \<times> 'e"
  handler_execute_module :: "('e, 'm) execute_module"
  handler_stop :: "'e \<Rightarrow> exn option \<times> 'e"

definition subprocess_entry ::
  "('e, 'm) handler \<Rightarrow> 'm poll list \<Rightarrow> 'e \<Rightarrow> loop_exit \<times> ('e, 'm) worker" where
  "subprocess_entry handler polls e =
     (case handler_setup handler e of
        (Some ex, e1) \<Rightarrow> (Propagated ex, worker_init e1)
      | (None, e1) \<Rightarrow>
          (case dispatch_loop (handler_execute_module handler) polls (worker_init e1) of
             (StillPolling, w) \<Rightarrow> (StillPolling, w)
           | (r, w) \<Rightarrow>
               (case handler_stop handler (engine w) of
                  (None, e2) \<Rightarrow> (r, w\<lparr>engine := e2\<rparr>)
                | (Some ex, e2) \<Rightarrow> (Propagated ex, w\<lparr>engine := e2\<rparr>))))"

text \<open>The messages among the items of a list of polls, and whether a poll ends the
  loop.\<close>

fun got_items :: "'m poll list \<Rightarrow> 'm item list" where
  "got_items [] = []"
| "got_items (Got x # polls) = x # got_items polls"
| "got_items (p # polls) = got_items polls"

fun ends_loop :: "'m poll \<Rightarrow> bool" where
  "ends_loop (Got ShutdownMessage) = True"
| "ends_loop (GetError ex) = True"
| "ends_loop p = False"

section \<open>Properties of the dispatch loop\<close>

lemma handle_item_shutdown: "handle_item exec ShutdownMessage w = (True, w)"
  by (simp add: handle_item_def)

lemma handle_item_message:
  "handle_item exec (AbstractMessage m) w =
     (False, w\<lparr>engine := snd (exec (engine w) (AbstractMessage m)),
               executed := executed w @ [AbstractMessage m],
               logged_exceptions := logged_exceptions w @
                 (case fst (exec (engine w) (AbstractMessage m)) of None \<Rightarrow> [] | Some ex \<Rightarrow> [ex])\<rparr>)"
  by (simp add: handle_item_def split: prod.splits option.splits)

lemma handle_item_other: "handle_item exec (OtherObject b) w = (False, w)"
  by (simp add: handle_item_def)

lemma dispatch_loop_append:
  "\<forall>p \<in> set pre. \<not> ends_loop p \<Longrightarrow>
   dispatch_loop exec (pre @ polls) w = dispatch_loop exec polls (snd (dispatch_loop exec pre w))
   \<and> fst (dispatch_loop exec pre w) = StillPolling"
proof (induction pre arbitrary: w)
  case Nil
  then show ?case by simp
next
  case (Cons p ps)
  show ?case
  proof (cases p)
    case Empty
    with Cons show ?thesis by simp
  next
    case (Got message_obj)
    with Cons show ?thesis
      by (cases message_obj)
         (simp_all add: Let_def handle_item_shutdown handle_item_message handle_item_other)
  next
    case (GetError ex)
    with Cons show ?thesis by simp
  qed
qed

lemma dispatch_loop_dequeued:
  "\<forall>p \<in> set pre. \<not> ends_loop p \<Longrightarrow>
   dequeued (snd (dispatch_loop exec pre w)) = dequeued w @ got_items pre"
proof (induction pre arbitrary: w)
  case Nil
  then show ?case by simp
next
  case (Cons p ps)
  show ?case
  proof (cases p)
    case Empty
    with Cons show ?thesis by simp
  next
    case (Got message_obj)
    with Cons show ?thesis
      by (cases message_obj)
         (simp_all add: Let_def handle_item_shutdown handle_item_message handle_item_other)
  next
    case (GetError ex)
    with Cons show ?thesis by simp
  qed
qed

lemma dispatch_loop_executed:
  "\<forall>p \<in> set pre. \<not> ends_loop p \<Longrightarrow>
   executed (snd (dispatch_loop exec pre w)) =
     executed w @ filter isinstance_AbstractMessage (got_items pre)"
proof (induction pre arbitrary: w)
  case Nil
  then show ?case by simp
next
  case (Cons p ps)
  show ?case
  proof (cases p)
    case Empty
    with Cons show ?thesis by simp
  next
    case (Got message_obj)
    with Cons show ?thesis
      by (cases message_obj)
         (simp_all add: Let_def handle_item_shutdown handle_item_message handle_item_other)
  next
    case (GetError ex)
    with Cons show ?thesis by simp
  qed
qed

lemma dispatch_loop_sentinel_count:
  "count_list (dequeued (snd (dispatch_loop exec polls w))) ShutdownMessage
     \<le> Suc (count_list (dequeued w) ShutdownMessage)"
proof (induction polls arbitrary: w)
  case Nil
  then show ?case by simp
next
  case (Cons p ps)
  show ?case
  proof (cases p)
    case Empty
    with Cons show ?thesis by simp
  next
    case (GetError ex)
    then show ?thesis by simp
  next
    case (Got message_obj)
    show ?thesis
    proof (cases message_obj)
      case ShutdownMessage
      with Got show ?thesis by (simp add: Let_def handle_item_shutdown)
    next
      case (AbstractMessage m)
      with Got show ?thesis
        by (simp add: Let_def handle_item_message) (rule order_trans [OF Cons.IH], simp)
    next
      case (OtherObject b)
      with Got show ?thesis
        by (cases b; simp add: Let_def handle_item_other)
           (rule order_trans [OF Cons.IH], simp)+
    qed
  qed
qed

lemma dispatch_loop_never_executes_sentinel:
  "ShutdownMessage \<notin> set (executed w) \<Longrightarrow>
   ShutdownMessage \<notin> set (executed (snd (dispatch_loop exec polls w)))"
proof (induction polls arbitrary: w)
  case Nil
  then show ?case by simp
next
  case (Cons p ps)
  show ?case
  proof (cases p)
    case Empty
    with Cons show ?thesis by simp
  next
    case (Got message_obj)
    with Cons show ?thesis
      by (cases message_obj)
         (simp_all add: Let_def handle_item_shutdown handle_item_message handle_item_other)
  next
    case (GetError ex)
    with Cons show ?thesis by simp
  qed
qed

lemma dispatch_loop_break:
  "dispatch_loop exec (Got ShutdownMessage # post) w =
     (Break, w\<lparr>dequeued := dequeued w @ [ShutdownMessage]\<rparr>)"
  by (simp add: Let_def handle_item_shutdown)

lemma subprocess_entry_runs_loop:
  "fst (handler_setup hdl e) = None \<Longrightarrow>
   executed (snd (subprocess_entry hdl polls e)) =
     executed (snd (dispatch_loop (handler_execute_module hdl) polls
        (worker_init (snd (handler_setup hdl e))))) \<and>
   dequeued (snd (subprocess_entry hdl polls e)) =
     dequeued (snd (dispatch_loop (handler_execute_module hdl) polls
        (worker_init (snd (handler_setup hdl e)))))"
  by (cases "handler_setup hdl e")
     (auto simp: subprocess_entry_def split: prod.splits option.splits loop_exit.splits)

text \<open>
  Claim C2. In every run of the dispatch loop the shutdown sentinel is dequeued at most
  once and is never passed to \<open>execute_module\<close>. When the sentinel is dequeued the loop
  is left at once by \<^verbatim>\<open>break\<close>: whatever was enqueued after it is neither dequeued
  nor executed. For the queue \<open>A, B, sentinel, C\<close> the engine is called exactly on \<open>A\<close>
  and \<open>B\<close>.
\<close>

theorem sentinel_ends_dispatch_loop:
  "count_list (dequeued (snd (dispatch_loop exec polls (worker_init e)))) ShutdownMessage \<le> 1 \<and>
   ShutdownMessage \<notin> set (executed (snd (dispatch_loop exec polls (worker_init e)))) \<and>
   ((\<forall>p \<in> set pre. \<not> ends_loop p) \<longrightarrow>
      fst (dispatch_loop exec (pre @ Got ShutdownMessage # post) (worker_init e)) = Break \<and>
      dequeued (snd (dispatch_loop exec (pre @ Got ShutdownMessage # post) (worker_init e))) =
        got_items pre @ [ShutdownMessage] \<and>
      executed (snd (dispatch_loop exec (pre @ Got ShutdownMessage # post) (worker_init e))) =
        filter isinstance_AbstractMessage (got_items pre)) \<and>
   executed (snd (dispatch_loop exec
       [Got (AbstractMessage a), Got (AbstractMessage b), Got ShutdownMessage,
        Got (AbstractMessage c)] (worker_init e))) =
     [AbstractMessage a, AbstractMessage b]"
proof (intro conjI impI)
  show "count_list (dequeued (snd (dispatch_loop exec polls (worker_init e)))) ShutdownMessage \<le> 1"
    using dispatch_loop_sentinel_count [of exec polls "worker_init e"]
    by (simp add: worker_init_def)
  show "ShutdownMessage \<notin> set (executed (snd (dispatch_loop exec polls (worker_init e))))"
    by (rule dispatch_loop_never_executes_sentinel) (simp add: worker_init_def)
  show "executed (snd (dispatch_loop exec
       [Got (AbstractMessage a), Got (AbstractMessage b), Got ShutdownMessage,
        Got (AbstractMessage c)] (worker_init e))) =
     [AbstractMessage a, AbstractMessage b]"
    by (simp add: Let_def handle_item_shutdown handle_item_message worker_init_def)
next
  assume pre: "\<forall>p \<in> set pre. \<not> ends_loop p"
  let ?w = "snd (dispatch_loop exec pre (worker_init e))"
  have split: "dispatch_loop exec (pre @ Got ShutdownMessage # post) (worker_init e) =
      (Break, ?w\<lparr>dequeued := dequeued ?w @ [ShutdownMessage]\<rparr>)"
    using dispatch_loop_append [OF pre, of exec "Got ShutdownMessage # post" "worker_init e"]
    by (simp only: dispatch_loop_break)
  show "fst (dispatch_loop exec (pre @ Got ShutdownMessage # post) (worker_init e)) = Break"
    by (simp add: split)
  show "dequeued (snd (dispatch_loop exec (pre @ Got ShutdownMessage # post) (worker_init e))) =
        got_items pre @ [ShutdownMessage]"
    unfolding split by (simp add: dispatch_loop_dequeued [OF pre] worker_init_def)
  show "executed (snd (dispatch_loop exec (pre @ Got ShutdownMessage # post) (worker_init e))) =
        filter isinstance_AbstractMessage (got_items pre)"
    unfolding split by (simp add: dispatch_loop_executed [OF pre] worker_init_def)
qed

theorem sentinel_ends_dispatch_loop_witness:
  "list_all (\<lambda>p. \<not> ends_loop p) [Got (AbstractMessage (1::nat)), Empty, Got (OtherObject False)] \<and>
   fst (dispatch_loop (\<lambda>e m. (if m = AbstractMessage 1 then Some (Exception ''bad'') else None, Suc e))
          ([Got (AbstractMessage 1), Empty, Got (OtherObject False)] @ Got ShutdownMessage #
           [Got (AbstractMessage 7), Got ShutdownMessage])
          (worker_init (0::nat))) = Break \<and>
   executed (snd (dispatch_loop (\<lambda>e m. (if m = AbstractMessage 1 then Some (Exception ''bad'') else None, Suc e))
          ([Got (AbstractMessage 1), Empty, Got (OtherObject False)] @ Got ShutdownMessage #
           [Got (AbstractMessage 7), Got ShutdownMessage])
          (worker_init (0::nat)))) = [AbstractMessage 1] \<and>
   dequeued (snd (dispatch_loop (\<lambda>e m. (if m = AbstractMessage 1 then Some (Exception ''bad'') else None, Suc e))
          ([Got (AbstractMessage 1), Empty, Got (OtherObject False)] @ Got ShutdownMessage #
           [Got (AbstractMessage 7), Got ShutdownMessage])
          (worker_init (0::nat)))) = [AbstractMessage 1, OtherObject False, ShutdownMessage]"
  using sentinel_ends_dispatch_loop
    [of "\<lambda>e m. (if m = AbstractMessage 1 then Some (Exception ''bad'') else None, Suc e)"
        "[]" "0::nat" "[Got (AbstractMessage (1::nat)), Empty, Got (OtherObject False)]"
        "[Got (AbstractMessage 7), Got ShutdownMessage]" 1 2 3]
  by (simp add: Let_def handle_item_def worker_init_def)



section \<open>Properties of the lifecycle state machine\<close>

lemma pop_at_index_of: "x \<in> set xs \<Longrightarrow> pop_at (index_of x xs) xs = remove1 x xs"
  by (induction xs) (auto simp: pop_at_def)

text \<open>
  Claim C8. \<^verbatim>\<open>add_listener\<close> and \<^verbatim>\<open>remove_listener\<close> leave the object as it is
  when the argument is not a listener, and raise nothing. \<^verbatim>\<open>add_listener\<close> appends a
  listener to the list; when the listener is registered already, the set of registered
  listeners stays the same, and adding it a second time gives the same set as adding it
  once.
\<close>

theorem listener_registration_type_checked:
  "add_listener (OtherValue x) s = s \<and>
   remove_listener (OtherValue x) s = s \<and>
   listeners (add_listener (ListenerObject l) s) = listeners s @ [l] \<and>
   (l \<in> set (listeners s) \<longrightarrow>
      set (listeners (add_listener (ListenerObject l) s)) = set (listeners s)) \<and>
   set (listeners (add_listener (ListenerObject l) (add_listener (ListenerObject l) s))) =
     set (listeners (add_listener (ListenerObject l) s))"
  by (auto simp: add_listener_def remove_listener_def)

theorem listener_registration_type_checked_witness:
  "plain_listener 1 \<in> set (listeners (observed_by [plain_listener 1])) \<and>
   listeners (add_listener (ListenerObject (plain_listener 1) :: string pyvalue)
      (observed_by [plain_listener 1])) = [plain_listener 1, plain_listener 1] \<and>
   set (listeners (add_listener (ListenerObject (plain_listener 1) :: string pyvalue)
      (observed_by [plain_listener 1]))) = set (listeners (observed_by [plain_listener 1])) \<and>
   add_listener (OtherValue ''x'') (observed_by [plain_listener 1]) = observed_by [plain_listener 1] \<and>
   remove_listener (OtherValue ''x'') (observed_by [plain_listener 1]) =
     observed_by [plain_listener 1]"
  using listener_registration_type_checked
    [of "''x''" "observed_by [plain_listener 1]" "plain_listener 1"]
  by (simp add: add_listener_def init_def observed_by_def)

subsection \<open>The fan-out when no callback raises\<close>

lemma deliver_quiet: "quiet_listener l \<Longrightarrow> deliver l ev = None"
  by (cases ev) (auto simp: deliver_def quiet_listener_def split: option.splits callback.splits)

lemma notify_all_quiet:
  "quiet ls \<Longrightarrow>
   notify_all ev ls s = (None, s\<lparr>history := history s @ map (\<lambda>l. Notified l ev) ls\<rparr>)"
  by (induction ls arbitrary: s) (simp_all add: quiet_def deliver_quiet record_obs_def)

lemma enter_fields [simp]:
  "state (enter X ev s) = X"
  "configured (enter X ev s) = configured s"
  "enabled (enter X ev s) = enabled s"
  "listeners (enter X ev s) = listeners s"
  "configuration (enter X ev s) = configuration s"
  "ext (enter X ev s) = ext s"
  "history (enter X ev s) = history s @ transition X ev (listeners s)"
  by (simp_all add: enter_def)

lemma hooked_fields [simp]:
  "state (hooked k rx s) = state s"
  "configured (hooked k rx s) = configured s"
  "enabled (hooked k rx s) = enabled s"
  "listeners (hooked k rx s) = listeners s"
  "configuration (hooked k rx s) = configuration s"
  "ext (hooked k rx s) = snd rx"
  "history (hooked k rx s) = history s @ [HookRun k (fst rx)]"
  by (simp_all add: hooked_def record_obs_def)

lemma run_hook_hooked: "run_hook k f s = (fst (f s), hooked k (f s) s)"
  by (simp add: run_hook_def hooked_def split: prod.splits)

lemma set_configuring_quiet:
  "quiet (listeners s) \<Longrightarrow>
   set_configuring s =
     (None, (enter CONFIGURING (on_configuring (configuration s)) s)\<lparr>configured := CONFIGURING\<rparr>)"
  by (simp add: set_configuring_def Let_def record_obs_def notify_all_quiet transition_def enter_def)

lemma set_configured_quiet:
  "quiet (listeners s) \<Longrightarrow>
   set_configured s =
     (None, (enter CONFIGURED (on_configured (configuration s)) s)\<lparr>configured := CONFIGURED\<rparr>)"
  by (simp add: set_configured_def Let_def record_obs_def notify_all_quiet transition_def enter_def)

lemma set_failed_quiet:
  "quiet (listeners s) \<Longrightarrow> set_failed exc s = (None, enter FAILED (on_failure exc) s)"
  by (simp add: set_failed_def Let_def record_obs_def notify_all_quiet transition_def enter_def)





lemma on_exception_quiet:
  "quiet (listeners s) \<Longrightarrow> on_exception exc s = (Some exc, enter FAILED (on_failure exc) s)"
  by (simp add: on_exception_def set_failed_quiet)

lemma configure_quiet:
  assumes "quiet (listeners s)"
    and "configured s \<noteq> CONFIGURED" "state s \<noteq> CONFIGURED" "state s \<noteq> CONFIGURING"
  shows "configure h s =
     (let s1 = (enter CONFIGURING (on_configuring (configuration s)) s)\<lparr>configured := CONFIGURING\<rparr>;
          s2 = hooked DoConfigure (do_configure h s1) s1
      in case fst (do_configure h s1) of
           None \<Rightarrow> (None, (enter CONFIGURED (on_configured (configuration s)) s2)\<lparr>configured := CONFIGURED\<rparr>)
         | Some exc \<Rightarrow> (Some exc, enter FAILED (on_failure exc) s2))"
  using assms
  by (simp add: configure_def try_except_def seq_def set_configuring_quiet run_hook_hooked
      set_configured_quiet on_exception_quiet Let_def split: option.splits)



subsection \<open>The fan-out in general\<close>

lemma notify_all_general:
  "notify_all ev ls s =
     (first_raise ev ls, s\<lparr>history := history s @ map (\<lambda>l. Notified l ev) (reached ev ls)\<rparr>)"
  by (induction ls arbitrary: s) (simp_all add: record_obs_def split: option.splits)


lemma entered_fields [simp]:
  "state (entered X ev s) = X"
  "configured (entered X ev s) = configured s"
  "enabled (entered X ev s) = enabled s"
  "listeners (entered X ev s) = listeners s"
  "configuration (entered X ev s) = configuration s"
  "ext (entered X ev s) = ext s"
  "history (entered X ev s) = history s @ transition X ev (reached ev (listeners s))"
  by (simp_all add: entered_def)

lemma set_configuring_general:
  "set_configuring s =
     (first_raise (on_configuring (configuration s)) (listeners s),
      (entered CONFIGURING (on_configuring (configuration s)) s)\<lparr>configured := CONFIGURING\<rparr>)"
  by (simp add: set_configuring_def Let_def record_obs_def notify_all_general transition_def entered_def)

lemma set_configured_general:
  "set_configured s =
     (first_raise (on_configured (configuration s)) (listeners s),
      (entered CONFIGURED (on_configured (configuration s)) s)\<lparr>configured := CONFIGURED\<rparr>)"
  by (simp add: set_configured_def Let_def record_obs_def notify_all_general transition_def entered_def)

lemma set_failed_general:
  "set_failed exc s = (first_raise (on_failure exc) (listeners s), entered FAILED (on_failure exc) s)"
  by (simp add: set_failed_def Let_def record_obs_def notify_all_general transition_def entered_def)

lemma set_starting_general:
  "set_starting s = (first_raise on_starting (listeners s), entered STARTING on_starting s)"
  by (simp add: set_starting_def Let_def record_obs_def notify_all_general transition_def entered_def)

lemma set_started_general:
  "set_started s = (first_raise on_started (listeners s), entered STARTED on_started s)"
  by (simp add: set_started_def Let_def record_obs_def notify_all_general transition_def entered_def)

lemma set_stopping_general:
  "set_stopping s = (first_raise on_stopping (listeners s), entered STOPPING on_stopping s)"
  by (simp add: set_stopping_def Let_def record_obs_def notify_all_general transition_def entered_def)

lemma set_stopped_general:
  "set_stopped s = (first_raise on_stopped (listeners s), entered STOPPED on_stopped s)"
  by (simp add: set_stopped_def Let_def record_obs_def notify_all_general transition_def entered_def)

lemma on_exception_general:
  "on_exception exc s =
     (Some (case first_raise (on_failure exc) (listeners s) of None \<Rightarrow> exc | Some exc' \<Rightarrow> exc'),
      entered FAILED (on_failure exc) s)"
  by (simp add: on_exception_def set_failed_general split: option.splits)

lemmas general_defs =
  try_except_def seq_def run_hook_hooked on_exception_general
  set_configuring_general set_configured_general set_starting_general set_started_general
  set_stopping_general set_stopped_general

lemma configure_frame:
  "enabled (snd (configure h s)) = enabled s"
  "listeners (snd (configure h s)) = listeners s"
  "configuration (snd (configure h s)) = configuration s"
  by (simp_all add: configure_def general_defs split: option.splits)

lemma start_body_frame:
  "enabled (snd (start_body h s)) = enabled s"
  "listeners (snd (start_body h s)) = listeners s"
  "configuration (snd (start_body h s)) = configuration s"
  "configured (snd (start_body h s)) = configured s"
  by (simp_all add: start_body_def general_defs split: option.splits)

lemma stop_frame:
  "enabled (snd (stop h s)) = enabled s"
  "listeners (snd (stop h s)) = listeners s"
  "configuration (snd (stop h s)) = configuration s"
  "configured (snd (stop h s)) = configured s"
  by (simp_all add: stop_def general_defs split: option.splits)

lemma configure_marker:
  "configured s \<noteq> UNCONFIGURED \<Longrightarrow> configured (snd (configure h s)) \<noteq> UNCONFIGURED"
  by (simp add: configure_def general_defs split: option.splits)

lemma start_unfold:
  "start h s =
     (if configured s = UNCONFIGURED
      then (case configure h s of (None, s1) \<Rightarrow> start_body h s1 | (Some exc, s1) \<Rightarrow> (Some exc, s1))
      else start_body h s)"
  by (simp add: start_def seq_def)

lemma start_frame:
  "enabled (snd (start h s)) = enabled s"
  "listeners (snd (start h s)) = listeners s"
  "configuration (snd (start h s)) = configuration s"
proof -
  obtain r s1 where c: "configure h s = (r, s1)" by (cases "configure h s")
  then have f: "enabled s1 = enabled s" "listeners s1 = listeners s"
    "configuration s1 = configuration s"
    using configure_frame [of h s] by simp_all
  show "enabled (snd (start h s)) = enabled s"
    using c f by (simp add: start_unfold start_body_frame split: option.splits)
  show "listeners (snd (start h s)) = listeners s"
    using c f by (simp add: start_unfold start_body_frame split: option.splits)
  show "configuration (snd (start h s)) = configuration s"
    using c f by (simp add: start_unfold start_body_frame split: option.splits)
qed

text \<open>The definitions unfolded to run an operation on a given object.\<close>

lemmas lifecycle_defs =
  init_def add_listener_def listener_init_def plain_listener_def base_hooks_def
  configure_def start_def start_body_def stop_def try_except_def on_exception_def seq_def
  run_hook_def record_obs_def deliver_def
  set_configuring_def set_configured_def set_failed_def set_starting_def set_started_def
  set_stopping_def set_stopped_def added_def transition_def quiet_def quiet_listener_def
  Let_def

lemmas run_defs =
  lifecycle_defs observed_by_def raising_def state_sequence_def set_configuration_def
  manager_init_def manager_hooks_def manager_do_configure_def manager_do_start_def
  manager_do_stop_def manager_cascade_def

subsection \<open>Notification of listeners\<close>






lemma added_append: "history s' = history s @ tr \<Longrightarrow> added s s' = tr"
  by (simp add: added_def)








subsection \<open>Failure of a hook\<close>

lemma raised_by_hooks_append [simp]:
  "raised_by_hooks (a @ b) = raised_by_hooks a @ raised_by_hooks b"
  by (induction a rule: raised_by_hooks.induct) simp_all

lemma raised_by_hooks_notes [simp]: "raised_by_hooks (map (\<lambda>l. Notified l ev) ls) = []"
  by (induction ls) simp_all

lemma raised_by_hooks_transition [simp]: "raised_by_hooks (transition X ev ls) = []"
  by (simp add: transition_def)


lemma after_raise_none: "raised_by_hooks a = [] \<Longrightarrow> after_raise a = []"
  by (induction a rule: after_raise.induct) simp_all

lemma set_transition [simp]:
  "SetState Y \<in> set (transition X ev ls) \<longleftrightarrow> Y = X"
  by (auto simp: transition_def)

lemma failure_policy_Nil [simp]: "failure_policy ls None X []"
  by (simp add: failure_policy_def)










subsection \<open>The path of the state field\<close>



lemma lifecycle_ok_notes [simp]:
  "lifecycle_ok X r (map (\<lambda>l. Notified l ev) ls @ tr) = lifecycle_ok X r tr"
  by (induction ls) simp_all

lemma lifecycle_end_notes [simp]:
  "lifecycle_end X r (map (\<lambda>l. Notified l ev) ls @ tr) = lifecycle_end X r tr"
  by (induction ls) simp_all

lemma lifecycle_ok_transition [simp]:
  "lifecycle_ok X r (transition Y ev ls @ tr) =
     ((if Y = FAILED then r else \<not> r \<and> lifecycle_step X Y) \<and> lifecycle_ok Y False tr)"
  by (simp add: transition_def)

lemma lifecycle_end_transition [simp]:
  "lifecycle_end X r (transition Y ev ls @ tr) = lifecycle_end Y False tr"
  by (simp add: transition_def)

lemma lifecycle_ok_transition_end [simp]:
  "lifecycle_ok X r (transition Y ev ls) =
     (if Y = FAILED then r else \<not> r \<and> lifecycle_step X Y)"
  using lifecycle_ok_transition [of X r Y ev ls "[]"] by simp

lemma lifecycle_end_transition_end [simp]:
  "lifecycle_end X r (transition Y ev ls) = (Y, False)"
  using lifecycle_end_transition [of X r Y ev ls "[]"] by simp












subsection \<open>The implicit configuration in start\<close>

text \<open>
  Claim C10. On an object that was never configured and whose \<open>enabled\<close> flag is false,
  \<^verbatim>\<open>start()\<close> does exactly what \<^verbatim>\<open>configure()\<close> does, because the implicit
  \<^verbatim>\<open>configure()\<close> stands before the \<open>enabled\<close> guard, and then returns with no
  \<open>starting\<close>/\<open>started\<close> transition or event. On a fresh object (state \<open>STOPPED\<close>),
  when the hook and the callbacks do not raise, this is the full configuration: the state
  goes through \<open>CONFIGURING\<close> to \<open>CONFIGURED\<close> and the \<open>configuring\<close> and \<open>configured\<close>
  events are delivered to every listener.
\<close>

theorem start_configures_before_enabled_guard:
  assumes "configured s = UNCONFIGURED" and "\<not> enabled s"
  shows "start h s = configure h s \<and>
     (state s = STOPPED \<and> quiet (listeners s) \<and>
      fst (do_configure h
        ((enter CONFIGURING (on_configuring (configuration s)) s)\<lparr>configured := CONFIGURING\<rparr>)) = None \<longrightarrow>
        fst (start h s) = None \<and>
        state (snd (start h s)) = CONFIGURED \<and> configured (snd (start h s)) = CONFIGURED \<and>
        added s (snd (start h s)) =
          transition CONFIGURING (on_configuring (configuration s)) (listeners s) @
          [HookRun DoConfigure None] @
          transition CONFIGURED (on_configured (configuration s)) (listeners s))"
proof -
  obtain r s1 where c: "configure h s = (r, s1)" by (cases "configure h s")
  with configure_frame(1) [of h s] assms have "\<not> enabled s1" by simp
  then have "start_body h s1 = (None, s1)" by (simp add: start_body_def)
  with c assms have eq: "start h s = configure h s"
    by (simp add: start_unfold split: option.splits)
  show ?thesis
  proof (intro conjI impI)
    show "start h s = configure h s" by (rule eq)
  next
    assume a: "state s = STOPPED \<and> quiet (listeners s) \<and>
      fst (do_configure h
        ((enter CONFIGURING (on_configuring (configuration s)) s)\<lparr>configured := CONFIGURING\<rparr>)) = None"
    then have q: "quiet (listeners s)" by simp
    from a assms have res: "configure h s =
        (None, (enter CONFIGURED (on_configured (configuration s))
           (hooked DoConfigure (do_configure h
               ((enter CONFIGURING (on_configuring (configuration s)) s)\<lparr>configured := CONFIGURING\<rparr>))
             ((enter CONFIGURING (on_configuring (configuration s)) s)\<lparr>configured := CONFIGURING\<rparr>)))
          \<lparr>configured := CONFIGURED\<rparr>)"
      by (simp add: configure_quiet [OF q] Let_def)
    show "fst (start h s) = None" by (simp add: eq res)
    show "state (snd (start h s)) = CONFIGURED" by (simp add: eq res)
    show "configured (snd (start h s)) = CONFIGURED" by (simp add: eq res)
    show "added s (snd (start h s)) =
          transition CONFIGURING (on_configuring (configuration s)) (listeners s) @
          [HookRun DoConfigure None] @
          transition CONFIGURED (on_configured (configuration s)) (listeners s)"
      using a by (simp add: eq res added_def)
  qed
qed

theorem start_configures_before_enabled_guard_witness:
  "configured ((observed_by [plain_listener 1])\<lparr>enabled := False\<rparr>) = UNCONFIGURED \<and>
   start base_hooks ((observed_by [plain_listener 1])\<lparr>enabled := False\<rparr>) =
     configure base_hooks ((observed_by [plain_listener 1])\<lparr>enabled := False\<rparr>) \<and>
   fst (start base_hooks ((observed_by [plain_listener 1])\<lparr>enabled := False\<rparr>)) = None \<and>
   state (snd (start base_hooks ((observed_by [plain_listener 1])\<lparr>enabled := False\<rparr>))) =
     CONFIGURED \<and>
   history (snd (start base_hooks ((observed_by [plain_listener 1])\<lparr>enabled := False\<rparr>))) =
     [SetState CONFIGURING, Notified (plain_listener 1) (on_configuring None),
      HookRun DoConfigure None,
      SetState CONFIGURED, Notified (plain_listener 1) (on_configured None)]"
  using start_configures_before_enabled_guard
    [of "(observed_by [plain_listener 1])\<lparr>enabled := False\<rparr>" base_hooks]
  by (simp add: run_defs)

lemma in_set_notes [simp]:
  "HookRun k r \<notin> set (map (\<lambda>l. Notified l ev) ls)"
  "SetState X \<notin> set (map (\<lambda>l. Notified l ev) ls)"
  by auto

lemma in_set_transition [simp]:
  "HookRun k r \<notin> set (transition X ev ls)"
  by (auto simp: transition_def)

lemma configure_hook_raised:
  assumes "HookRun DoConfigure (Some exc) \<in> set (added s (snd (configure h s)))"
  shows "fst (configure h s) \<noteq> None \<and> configured (snd (configure h s)) = CONFIGURING"
proof (cases "configured s = CONFIGURED \<or> state s = CONFIGURED \<or> state s = CONFIGURING")
  case True
  then have "configure h s = (None, s)" by (auto simp: configure_def)
  with assms show ?thesis by (simp add: added_def)
next
  case False
  with assms show ?thesis
    by (auto simp add: configure_def general_defs added_def split: option.splits)
qed

lemma start_body_no_configure:
  "HookRun DoConfigure r \<notin> set (added s (snd (start_body h s)))"
  "SetState CONFIGURING \<notin> set (added s (snd (start_body h s)))"
  by (auto simp add: start_body_def general_defs added_def split: option.splits)

lemma perform_marker:
  "configured s \<noteq> UNCONFIGURED \<Longrightarrow> configured (snd (perform h c s)) \<noteq> UNCONFIGURED"
  by (cases c) (simp_all add: configure_marker start_unfold start_body_frame stop_frame)

lemma perform_all_marker:
  "configured s \<noteq> UNCONFIGURED \<Longrightarrow> configured (perform_all h cs s) \<noteq> UNCONFIGURED"
  by (induction cs arbitrary: s) (simp_all add: perform_marker)

lemma perform_keeps_marker:
  "c \<noteq> Configure \<Longrightarrow> configured s \<noteq> UNCONFIGURED \<Longrightarrow>
   configured (snd (perform h c s)) = configured s"
  by (cases c) (simp_all add: start_unfold start_body_frame stop_frame)

lemma perform_all_keeps_marker:
  "Configure \<notin> set cs \<Longrightarrow> configured s \<noteq> UNCONFIGURED \<Longrightarrow>
   configured (perform_all h cs s) = configured s"
proof (induction cs arbitrary: s)
  case Nil
  then show ?case by simp
next
  case (Cons c cs)
  then have c: "c \<noteq> Configure" and cs: "Configure \<notin> set cs" by auto
  from perform_keeps_marker [OF c Cons.prems(2), of h]
  have k: "configured (snd (perform h c s)) = configured s" .
  with Cons.prems(2) have "configured (snd (perform h c s)) \<noteq> UNCONFIGURED" by simp
  from Cons.IH [OF cs this] k show ?case by simp
qed

text \<open>
  Claim C9. If \<^verbatim>\<open>do_configure\<close> raises during \<^verbatim>\<open>configure()\<close>, then
  \<^verbatim>\<open>configure()\<close> raises and leaves the marker at \<open>CONFIGURING\<close>, not at
  \<open>UNCONFIGURED\<close>. After any further calls the marker is still not \<open>UNCONFIGURED\<close>
  (and still \<open>CONFIGURING\<close> if no \<^verbatim>\<open>configure()\<close> was among them), so every later
  \<^verbatim>\<open>start()\<close> skips the implicit \<^verbatim>\<open>configure()\<close> and is the start path alone; the
  start path never runs \<^verbatim>\<open>do_configure\<close>, never assigns \<open>CONFIGURING\<close> and leaves the
  marker as it is.
\<close>

theorem failed_configure_is_not_retried_by_start:
  assumes "HookRun DoConfigure (Some exc) \<in> set (added s (snd (configure h s)))"
  shows "fst (configure h s) \<noteq> None \<and>
     configured (snd (configure h s)) = CONFIGURING \<and>
     (\<forall>cs. configured (perform_all h cs (snd (configure h s))) \<noteq> UNCONFIGURED \<and>
           start h (perform_all h cs (snd (configure h s))) =
             start_body h (perform_all h cs (snd (configure h s))) \<and>
           (Configure \<notin> set cs \<longrightarrow>
              configured (perform_all h cs (snd (configure h s))) = CONFIGURING)) \<and>
     (\<forall>t r. HookRun DoConfigure r \<notin> set (added t (snd (start_body h t))) \<and>
            SetState CONFIGURING \<notin> set (added t (snd (start_body h t))) \<and>
            configured (snd (start_body h t)) = configured t)"
proof -
  from configure_hook_raised [OF assms]
  have r: "fst (configure h s) \<noteq> None" and m: "configured (snd (configure h s)) = CONFIGURING"
    by simp_all
  from m have n: "configured (snd (configure h s)) \<noteq> UNCONFIGURED" by simp
  show ?thesis
  proof (intro conjI allI impI)
    show "fst (configure h s) \<noteq> None" by (rule r)
    show "configured (snd (configure h s)) = CONFIGURING" by (rule m)
    show "configured (perform_all h cs (snd (configure h s))) \<noteq> UNCONFIGURED" for cs
      by (rule perform_all_marker [OF n])
    then show "start h (perform_all h cs (snd (configure h s))) =
             start_body h (perform_all h cs (snd (configure h s)))" for cs
      by (simp add: start_unfold)
    show "configured (perform_all h cs (snd (configure h s))) = CONFIGURING"
      if "Configure \<notin> set cs" for cs
      using perform_all_keeps_marker [OF that n, of h] m by simp
    show "HookRun DoConfigure r \<notin> set (added t (snd (start_body h t)))" for t r
      by (rule start_body_no_configure)
    show "SetState CONFIGURING \<notin> set (added t (snd (start_body h t)))" for t
      by (rule start_body_no_configure)
    show "configured (snd (start_body h t)) = configured t" for t
      by (rule start_body_frame)
  qed
qed

theorem failed_configure_is_not_retried_by_start_witness:
  "HookRun DoConfigure (Some (Exception ''no'')) \<in> set (added (observed_by [])
      (snd (configure (base_hooks\<lparr>do_configure := raising (Exception ''no'')\<rparr>) (observed_by [])))) \<and>
   configured (snd (configure (base_hooks\<lparr>do_configure := raising (Exception ''no'')\<rparr>)
      (observed_by []))) = CONFIGURING \<and>
   history (snd (start (base_hooks\<lparr>do_configure := raising (Exception ''no'')\<rparr>)
      (snd (configure (base_hooks\<lparr>do_configure := raising (Exception ''no'')\<rparr>) (observed_by []))))) =
     [SetState CONFIGURING, HookRun DoConfigure (Some (Exception ''no'')), SetState FAILED,
      SetState STARTING, HookRun DoStart None, SetState STARTED]"
  using failed_configure_is_not_retried_by_start
    [of "Exception ''no''" "observed_by []" "base_hooks\<lparr>do_configure := raising (Exception ''no'')\<rparr>"]
  by (simp add: run_defs)

subsection \<open>Starting twice\<close>

lemma start_notifications_of_transition [simp]:
  "filter is_start_notification (transition X on_starting ls) = map (\<lambda>l. Notified l on_starting) ls"
  "filter is_start_notification (transition X on_started ls) = map (\<lambda>l. Notified l on_started) ls"
  "filter is_start_notification (transition X (on_configuring c) ls) = []"
  "filter is_start_notification (transition X (on_configured c) ls) = []"
  by (induction ls) (simp_all add: transition_def)





lemma consistent_init: "consistent (init config x)"
  by (simp add: consistent_def init_def)

lemma consistent_perform: "consistent s \<Longrightarrow> consistent (snd (perform h c s))"
proof (cases c)
  case Configure
  assume "consistent s"
  then show ?thesis using Configure
    by (auto simp add: consistent_def configure_def general_defs split: option.splits)
next
  case Stop
  assume "consistent s"
  then show ?thesis using Stop
    by (auto simp add: consistent_def stop_def general_defs split: option.splits)
next
  case Start
  assume c: "consistent s"
  show ?thesis
  proof (cases "configured s = UNCONFIGURED")
    case False
    with start_body_frame(4) [of h s] Start show ?thesis
      by (simp add: consistent_def start_unfold)
  next
    case True
    with c have "state s = STOPPED" by (simp add: consistent_def)
    with True have "configured (snd (configure h s)) \<noteq> UNCONFIGURED"
      by (auto simp add: configure_def general_defs split: option.splits)
    then show ?thesis using True Start start_body_frame(4) [of h "snd (configure h s)"]
      by (cases "configure h s") (auto simp add: consistent_def start_unfold split: option.splits)
  qed
qed

lemma consistent_remove_listener: "consistent s \<Longrightarrow> consistent (remove_listener v s)"
  by (cases v) (simp_all add: consistent_def remove_listener_def)

lemma consistent_set_configuration: "consistent s \<Longrightarrow> consistent (set_configuration c s)"
  by (simp add: consistent_def set_configuration_def)

lemma consistent_add_listener: "consistent s \<Longrightarrow> consistent (add_listener v s)"
  by (cases v) (simp_all add: consistent_def add_listener_def)




subsection \<open>StartableManager\<close>













end
